theory Spec2Isabelle
  imports Main "HOL-Library.Sublist" "HOL-Library.Char_ord"
begin

section \<open>Text: the operations of Python's \<open>str\<close> that the scraper uses\<close>

text \<open>
  Text is a \<^typ>\<open>string\<close>. The functions of this section follow Python on ASCII text;
  a code point beyond ASCII stands in the model as the bytes of its UTF-8 encoding, which
  are taken to be caseless and to be neither white space, digits nor word characters.
\<close>

definition is_upper :: "char \<Rightarrow> bool" where
  "is_upper c = (CHR ''A'' \<le> c \<and> c \<le> CHR ''Z'')"

definition is_lower :: "char \<Rightarrow> bool" where
  "is_lower c = (CHR ''a'' \<le> c \<and> c \<le> CHR ''z'')"

definition is_digit :: "char \<Rightarrow> bool" where
  "is_digit c = (CHR ''0'' \<le> c \<and> c \<le> CHR ''9'')"

text \<open>White space as \<open>str.strip()\<close> and \<open>str.isspace()\<close> see it: tab, line feed,
  vertical tab, form feed, carriage return, the four separators \<open>0x1C\<close> to \<open>0x1F\<close>, space.\<close>

definition is_space :: "char \<Rightarrow> bool" where
  "is_space c = ((CHR 0x09 \<le> c \<and> c \<le> CHR 0x0D) \<or> (CHR 0x1C \<le> c \<and> c \<le> CHR 0x20))"

text \<open>A word character of the regular expressions (\<open>\w\<close>): letter, digit or underscore.\<close>

definition is_word :: "char \<Rightarrow> bool" where
  "is_word c = (is_upper c \<or> is_lower c \<or> is_digit c \<or> c = CHR ''_'')"

definition lower_char :: "char \<Rightarrow> char" where
  "lower_char c = (if is_upper c then char_of (of_char c + (32::nat)) else c)"

text \<open>\<open>s.lower()\<close>\<close>

definition lower :: "string \<Rightarrow> string" where
  "lower s = map lower_char s"

text \<open>\<open>s.strip()\<close>\<close>

definition strip :: "string \<Rightarrow> string" where
  "strip s = rev (dropWhile is_space (rev (dropWhile is_space s)))"

text \<open>\<open>s.isdigit()\<close>: false on the empty string.\<close>

definition isdigit :: "string \<Rightarrow> bool" where
  "isdigit s = (s \<noteq> [] \<and> list_all is_digit s)"

text \<open>\<open>s.zfill(width)\<close>: zeros go behind a leading sign.\<close>

definition zfill :: "nat \<Rightarrow> string \<Rightarrow> string" where
  "zfill width s =
     (if width \<le> length s then s
      else (case s of
              c # cs \<Rightarrow>
                (if c = CHR ''+'' \<or> c = CHR ''-''
                 then c # replicate (width - length s) CHR ''0'' @ cs
                 else replicate (width - length s) CHR ''0'' @ s)
            | [] \<Rightarrow> replicate (width - length s) CHR ''0'' @ s))"

text \<open>\<open>sep.join(parts)\<close>\<close>

fun join :: "string \<Rightarrow> string list \<Rightarrow> string" where
  "join sep [] = []"
| "join sep [x] = x"
| "join sep (x # y # ys) = x @ sep @ join sep (y # ys)"

text \<open>\<open>any(keyword in s for keyword in keywords)\<close>: \<open>in\<close> on two strings is the substring test.\<close>

definition any_in :: "string list \<Rightarrow> string \<Rightarrow> bool" where
  "any_in keywords s = list_ex (\<lambda>keyword. sublist keyword s) keywords"

section \<open>Regular expressions: the fragment of Python's \<open>re\<close> that the patterns use\<close>

text \<open>
  A pattern is a sequence of items: the word boundary \<open>\b\<close>, an alternation of literal
  strings (a single literal is the alternation of one), and a character class repeated
  greedily at least \<open>m\<close> times (\<open>+\<close> is \<open>m = 1\<close>, \<open>{2,}\<close> is \<open>m = 2\<close>).
  A position in the subject is the text read so far, reversed, and the rest of the text.
\<close>

datatype rx = Bnd | Alt "string list" | Rep "char \<Rightarrow> bool" nat

fun word_at :: "string \<Rightarrow> bool" where
  "word_at [] = False"
| "word_at (c # cs) = is_word c"

definition at_boundary :: "string \<Rightarrow> string \<Rightarrow> bool" where
  "at_boundary seen rest = (word_at seen \<noteq> word_at rest)"

fun first_some :: "'a option list \<Rightarrow> 'a option" where
  "first_some [] = None"
| "first_some (None # xs) = first_some xs"
| "first_some (Some x # xs) = Some x"

text \<open>
  The backtracking matcher: the number of characters of the first match at this position,
  in the order in which the engine tries them (alternatives from left to right, a greedy
  repetition from the longest run down to the minimum).
\<close>

fun rx_match :: "rx list \<Rightarrow> string \<Rightarrow> string \<Rightarrow> nat option" where
  "rx_match [] seen rest = Some 0"
| "rx_match (Bnd # rs) seen rest =
     (if at_boundary seen rest then rx_match rs seen rest else None)"
| "rx_match (Alt ws # rs) seen rest =
     first_some (map (\<lambda>w.
        if prefix w rest
        then map_option (\<lambda>n. length w + n) (rx_match rs (rev w @ seen) (drop (length w) rest))
        else None) ws)"
| "rx_match (Rep cls m # rs) seen rest =
     first_some (map (\<lambda>k.
        map_option (\<lambda>n. k + n) (rx_match rs (rev (take k rest) @ seen) (drop k rest)))
        (rev [m ..< Suc (length (takeWhile cls rest))]))"

text \<open>\<open>re.search(pattern, s)\<close> as a truth value: a match at some position, tried from the left.\<close>

fun rx_search_from :: "rx list \<Rightarrow> string \<Rightarrow> string \<Rightarrow> bool" where
  "rx_search_from p seen [] = (rx_match p seen [] \<noteq> None)"
| "rx_search_from p seen (c # cs) =
     (rx_match p seen (c # cs) \<noteq> None \<or> rx_search_from p (c # seen) cs)"

definition re_search :: "rx list \<Rightarrow> string \<Rightarrow> bool" where
  "re_search p s = rx_search_from p [] s"

text \<open>
  \<open>re.findall(pattern, s)\<close> for a pattern without groups: the leftmost match, then the
  leftmost match from its end on, and so on. An empty match is recorded and the scan moves
  one character on.
\<close>

fun rx_findall_from :: "rx list \<Rightarrow> string \<Rightarrow> string \<Rightarrow> string list" where
  "rx_findall_from p seen [] = (case rx_match p seen [] of None \<Rightarrow> [] | Some n \<Rightarrow> [[]])"
| "rx_findall_from p seen (c # cs) =
     (case rx_match p seen (c # cs) of
        None \<Rightarrow> rx_findall_from p (c # seen) cs
      | Some 0 \<Rightarrow> [] # rx_findall_from p (c # seen) cs
      | Some (Suc k) \<Rightarrow>
          (c # take k cs) # rx_findall_from p (rev (c # take k cs) @ seen) (drop k cs))"

definition re_findall :: "rx list \<Rightarrow> string \<Rightarrow> string list" where
  "re_findall p s = rx_findall_from p [] s"

section \<open>\<open>pubmed_scraper/config.py\<close>\<close>

text \<open>The last academic keyword is written in the source file with the two code points
  \<open>U+221A\<close> and \<open>U+00A9\<close> behind \<open>universit\<close>; they stand here as their UTF-8 bytes.\<close>

definition ACADEMIC_KEYWORDS :: "string list" where
  "ACADEMIC_KEYWORDS =
     [''university'', ''college'', ''school'', ''institute'', ''faculty'',
      ''department'', ''hospital'', ''clinic'', ''medical center'',
      ''research center'', ''academic'', ''campus'', ''laboratory'',
      ''lab'', ''centre'', ''institut'', ''universidad'',
      ''universit'' @ [CHR 0xE2, CHR 0x88, CHR 0x9A, CHR 0xC2, CHR 0xA9]]"

definition PHARMA_BIOTECH_KEYWORDS :: "string list" where
  "PHARMA_BIOTECH_KEYWORDS =
     [''pharmaceutical'', ''pharma'', ''biotech'', ''biotechnology'',
      ''drug'', ''therapeutics'', ''medicines'', ''biopharmaceutical'',
      ''inc'', ''ltd'', ''llc'', ''corp'', ''corporation'', ''company'',
      ''ag'', ''gmbh'', ''sa'', ''plc'']"

section \<open>\<open>pubmed_scraper/core/utils.py\<close>\<close>

definition corporate_indicators :: "string list" where
  "corporate_indicators =
     [''inc'', ''ltd'', ''llc'', ''corp'', ''corporation'', ''company'',
      ''ag'', ''gmbh'', ''sa'', ''plc'']"

definition corporate_patterns :: "rx list list" where
  "corporate_patterns =
     [[Bnd, Alt [''inc'', ''ltd'', ''llc'', ''corp'', ''corporation'', ''company''], Bnd],
      [Bnd, Alt [''ag'', ''gmbh'', ''sa'', ''plc''], Bnd],
      [Bnd, Alt [''pharmaceutical'', ''pharma'', ''biotech'', ''biotechnology''], Bnd],
      [Bnd, Alt [''drug'', ''therapeutics'', ''medicines''], Bnd]]"

definition has_academic_keywords :: "string \<Rightarrow> bool" where
  "has_academic_keywords affiliation_lower = any_in ACADEMIC_KEYWORDS affiliation_lower"

definition has_pharma_keywords :: "string \<Rightarrow> bool" where
  "has_pharma_keywords affiliation_lower = any_in PHARMA_BIOTECH_KEYWORDS affiliation_lower"

definition has_corporate :: "string \<Rightarrow> bool" where
  "has_corporate affiliation_lower = any_in corporate_indicators affiliation_lower"

definition has_corporate_pattern :: "string \<Rightarrow> bool" where
  "has_corporate_pattern affiliation_lower =
     list_ex (\<lambda>pattern. re_search pattern affiliation_lower) corporate_patterns"

definition is_non_academic_affiliation :: "string \<Rightarrow> bool" where
  "is_non_academic_affiliation affiliation =
     (if affiliation = [] \<or> strip affiliation = [] then False
      else let affiliation_lower = lower affiliation in
        if has_academic_keywords affiliation_lower then
          (if has_pharma_keywords affiliation_lower
           then has_corporate affiliation_lower
           else False)
        else has_pharma_keywords affiliation_lower \<or> has_corporate_pattern affiliation_lower)"

text \<open>The character classes of the e-mail pattern
  \<open>\b[A-Za-z0-9._%+-]+@[A-Za-z0-9.-]+\.[A-Z|a-z]{2,}\b\<close>.\<close>

definition email_local :: "char \<Rightarrow> bool" where
  "email_local c = (is_upper c \<or> is_lower c \<or> is_digit c \<or> c \<in> set ''._%+-'')"

definition email_domain :: "char \<Rightarrow> bool" where
  "email_domain c = (is_upper c \<or> is_lower c \<or> is_digit c \<or> c \<in> set ''.-'')"

definition email_tld :: "char \<Rightarrow> bool" where
  "email_tld c = (is_upper c \<or> c = CHR ''|'' \<or> is_lower c)"

definition email_pattern :: "rx list" where
  "email_pattern =
     [Bnd, Rep email_local 1, Alt [''@''], Rep email_domain 1, Alt [''.''], Rep email_tld 2, Bnd]"

text \<open>The loop that keeps the first occurrence of each e-mail.\<close>

definition unique_step :: "string \<Rightarrow> string list \<Rightarrow> string list" where
  "unique_step email unique_emails =
     (if email \<notin> set unique_emails then unique_emails @ [email] else unique_emails)"

text \<open>The argument is optional: \<open>not text\<close> holds of \<open>None\<close> and of the empty string.\<close>

definition extract_emails :: "string option \<Rightarrow> string list" where
  "extract_emails text =
     (case text of
        None \<Rightarrow> []
      | Some t \<Rightarrow>
          (if t = [] then []
           else fold unique_step (re_findall email_pattern t) []))"

section \<open>XML elements: the part of \<open>xml.etree.ElementTree\<close> that the parser uses\<close>

text \<open>An element has a tag, an optional text and its child elements in document order.\<close>

datatype element = Element (tag: string) (etext: "string option") (children: "element list")

text \<open>\<open>Element.iter()\<close>: the element and everything below it, in document order.\<close>

fun iter :: "element \<Rightarrow> element list" where
  "iter (Element t x cs) = Element t x cs # concat (map iter cs)"

definition descendants :: "element \<Rightarrow> element list" where
  "descendants elem = concat (map iter (children elem))"

text \<open>
  The paths of the parser are sequences of two kinds of steps: \<open>Tag\<close> selects the children
  with that tag, \<open>//Tag\<close> (also the leading \<open>.//Tag\<close>) the elements with that tag anywhere
  below. A step is applied to each element selected so far, in order, and nothing removes
  an element that is selected twice.
\<close>

datatype step = Child string | Descendant string

fun select_step :: "step \<Rightarrow> element list \<Rightarrow> element list" where
  "select_step (Child t) result =
     concat (map (\<lambda>elem. filter (\<lambda>e. tag e = t) (children elem)) result)"
| "select_step (Descendant t) result =
     concat (map (\<lambda>elem. filter (\<lambda>e. tag e = t) (descendants elem)) result)"

definition et_findall :: "element \<Rightarrow> step list \<Rightarrow> element list" where
  "et_findall element path = fold select_step path [element]"

definition et_find :: "element \<Rightarrow> step list \<Rightarrow> element option" where
  "et_find element path = (case et_findall element path of [] \<Rightarrow> None | e # es \<Rightarrow> Some e)"

text \<open>\<open>Element.findtext(path)\<close>: \<open>None\<close> without a match, the empty string for a match
  without text.\<close>

definition et_findtext :: "element \<Rightarrow> step list \<Rightarrow> string option" where
  "et_findtext element path =
     (case et_find element path of
        None \<Rightarrow> None
      | Some e \<Rightarrow> (case etext e of None \<Rightarrow> Some [] | Some t \<Rightarrow> Some t))"

text \<open>\<open>x or ""\<close> on an optional string.\<close>

definition or_empty :: "string option \<Rightarrow> string" where
  "or_empty x = (case x of None \<Rightarrow> [] | Some s \<Rightarrow> s)"

section \<open>\<open>pubmed_scraper/core/parser.py\<close>\<close>

text \<open>The \<open>try\<close> of \<open>extract_text\<close> guards \<open>find\<close> and \<open>strip\<close>, which raise nothing on
  an element.\<close>

definition extract_text :: "element \<Rightarrow> step list \<Rightarrow> string option" where
  "extract_text element xpath =
     (case et_find element xpath of
        None \<Rightarrow> None
      | Some found \<Rightarrow>
          (case etext found of
             None \<Rightarrow> None
           | Some t \<Rightarrow> (if t \<noteq> [] then Some (strip t) else None)))"

definition month_map :: "(string \<times> string) list" where
  "month_map =
     [(''Jan'', ''1''), (''Feb'', ''2''), (''Mar'', ''3''), (''Apr'', ''4''),
      (''May'', ''5''), (''Jun'', ''6''), (''Jul'', ''7''), (''Aug'', ''8''),
      (''Sep'', ''9''), (''Oct'', ''10''), (''Nov'', ''11''), (''Dec'', ''12'')]"

definition convert_month_name_to_number :: "string \<Rightarrow> string" where
  "convert_month_name_to_number month_name =
     (case map_of month_map (take 3 month_name) of
        Some number \<Rightarrow> number
      | None \<Rightarrow> month_name)"

text \<open>The second half of \<open>extract_publication_date\<close>: the date built from the three
  fields, each the empty string when it is absent.\<close>

definition normalize_date :: "string \<Rightarrow> string \<Rightarrow> string \<Rightarrow> string" where
  "normalize_date year month day =
     (let date_parts = [];
          date_parts = (if year \<noteq> [] then date_parts @ [year] else date_parts);
          date_parts =
            (if month \<noteq> []
             then (let month_num = convert_month_name_to_number month
                   in date_parts @ [if isdigit month_num then zfill 2 month_num else month])
             else date_parts);
          date_parts =
            (if day \<noteq> []
             then date_parts @ [if isdigit day then zfill 2 day else day]
             else date_parts)
      in join ''-'' date_parts)"

definition extract_publication_date :: "element \<Rightarrow> string" where
  "extract_publication_date article =
     (case et_find article [Descendant ''PubDate''] of
        None \<Rightarrow> []
      | Some pubdate_elem \<Rightarrow>
          normalize_date
            (or_empty (et_findtext pubdate_elem [Child ''Year'']))
            (or_empty (et_findtext pubdate_elem [Child ''Month'']))
            (or_empty (et_findtext pubdate_elem [Child ''Day''])))"

definition emails_step :: "element \<Rightarrow> string list \<Rightarrow> string list" where
  "emails_step element emails =
     (case etext element of
        None \<Rightarrow> emails
      | Some t \<Rightarrow> (if t \<noteq> [] then emails @ extract_emails (Some t) else emails))"

definition extract_emails_from_elements :: "element \<Rightarrow> step list \<Rightarrow> string list" where
  "extract_emails_from_elements article xpath = fold emails_step (et_findall article xpath) []"

text \<open>The name of an author: forename, or the initials without one, then the surname.\<close>

definition full_name_of :: "element \<Rightarrow> string" where
  "full_name_of author =
     (let last_name = or_empty (extract_text author [Child ''LastName'']);
          fore_name = or_empty (extract_text author [Child ''ForeName'']);
          initials = or_empty (extract_text author [Child ''Initials'']);
          name_parts = [if fore_name \<noteq> [] then fore_name else initials, last_name]
      in strip (join '' '' (filter (\<lambda>part. part \<noteq> []) name_parts)))"

text \<open>The loop over the \<open>AffiliationInfo\<close> elements of one author: the author's
  affiliations, and the e-mails of the article found so far.\<close>

definition affiliation_step :: "element \<Rightarrow> string list \<times> string list \<Rightarrow> string list \<times> string list" where
  "affiliation_step aff_info acc =
     (case acc of (author_affiliations, emails) \<Rightarrow>
        (case extract_text aff_info [Child ''Affiliation''] of
           None \<Rightarrow> (author_affiliations, emails)
         | Some aff_text \<Rightarrow>
             (if aff_text \<noteq> []
              then (author_affiliations @ [aff_text], emails @ extract_emails (Some aff_text))
              else (author_affiliations, emails))))"

definition company_step :: "string \<Rightarrow> string list \<Rightarrow> string list" where
  "company_step aff company_affiliations =
     (if is_non_academic_affiliation aff \<and> aff \<notin> set company_affiliations
      then company_affiliations @ [aff]
      else company_affiliations)"

text \<open>The three lists that the loop over the authors fills.\<close>

record authors_state =
  non_academic_authors :: "string list"
  company_affiliations :: "string list"
  emails :: "string list"

definition author_step :: "element \<Rightarrow> authors_state \<Rightarrow> authors_state" where
  "author_step author st =
     (let full_name = full_name_of author;
          (author_affiliations, emails') =
             fold affiliation_step (et_findall author [Descendant ''AffiliationInfo''])
               ([], emails st);
          has_non_academic = list_ex is_non_academic_affiliation author_affiliations
      in if has_non_academic \<and> full_name \<noteq> []
         then st\<lparr>non_academic_authors :=
                   (if full_name \<notin> set (non_academic_authors st)
                    then non_academic_authors st @ [full_name]
                    else non_academic_authors st),
                 company_affiliations :=
                   fold company_step author_affiliations (company_affiliations st),
                 emails := emails'\<rparr>
         else st\<lparr>emails := emails'\<rparr>)"

definition process_authors :: "element \<Rightarrow> authors_state" where
  "process_authors article =
     fold author_step (et_findall article [Descendant ''Author''])
       \<lparr>non_academic_authors = [], company_affiliations = [], emails = []\<rparr>"

text \<open>The result record: a dictionary with six fixed keys.\<close>

record pubmed_record =
  PubmedID :: string
  Title :: string
  Publication_Date :: string
  Non_academic_Authors :: string
  Company_Affiliations :: string
  Corresponding_Author_Email :: string

text \<open>
  \<open>list(set(xs))\<close> lists each element of \<open>xs\<close> once, in the order of Python's hash table,
  which the program does not fix. The order is a parameter \<open>list_of_set\<close> of the parser.
\<close>

definition lists_the_set :: "(string list \<Rightarrow> string list) \<Rightarrow> bool" where
  "lists_the_set list_of_set = (\<forall>xs. distinct (list_of_set xs) \<and> set (list_of_set xs) = set xs)"

definition parse_single_article :: "(string list \<Rightarrow> string list) \<Rightarrow> element \<Rightarrow> pubmed_record" where
  "parse_single_article list_of_set article =
     (let pmid = or_empty (extract_text article [Descendant ''PMID'']);
          title = or_empty (extract_text article [Descendant ''ArticleTitle'']);
          pubdate = extract_publication_date article;
          corresponding_emails =
            extract_emails_from_elements article
              [Descendant ''AuthorList'', Descendant ''Author'', Descendant ''Email'']
            @ extract_emails_from_elements article
                [Descendant ''DataBankList'', Descendant ''DataBank'', Descendant ''Name''];
          st = process_authors article;
          all_emails = list_of_set (emails st @ corresponding_emails)
      in \<lparr>PubmedID = pmid,
          Title = title,
          Publication_Date = pubdate,
          Non_academic_Authors = join ''; '' (non_academic_authors st),
          Company_Affiliations = join ''; '' (company_affiliations st),
          Corresponding_Author_Email = join ''; '' all_emails\<rparr>)"

text \<open>
  The loop of \<open>parse_pubmed_records\<close>. The extraction of one article runs inside
  \<open>try\<close> ... \<open>except Exception: continue\<close>, and its result is kept when it is truthy:
  the loop is written over any extraction that raises (\<open>Inl\<close>), returns \<open>None\<close> or
  returns a record.
\<close>

datatype exn = Exception string

definition article_step ::
  "(element \<Rightarrow> exn + pubmed_record option) \<Rightarrow> element \<Rightarrow> pubmed_record list \<Rightarrow> pubmed_record list" where
  "article_step extract article results =
     (case extract article of
        Inl e \<Rightarrow> results
      | Inr None \<Rightarrow> results
      | Inr (Some record) \<Rightarrow> results @ [record])"

text \<open>
  \<open>ET.fromstring\<close> belongs to Python's library and is a parameter: it returns the root
  element, or \<open>None\<close> where it raises \<open>ParseError\<close>.
\<close>

definition parse_records_with ::
  "(string \<Rightarrow> element option) \<Rightarrow> (element \<Rightarrow> exn + pubmed_record option) \<Rightarrow> string
     \<Rightarrow> pubmed_record list" where
  "parse_records_with fromstring extract xml_data =
     (if strip xml_data = [] then []
      else (case fromstring xml_data of
              None \<Rightarrow> []
            | Some root \<Rightarrow>
                fold (article_step extract) (et_findall root [Descendant ''PubmedArticle'']) []))"

text \<open>\<open>parse_pubmed_records\<close>: the loop over \<open>parse_single_article\<close>, which raises nothing
  and returns a record with six keys, a truthy value.\<close>

definition parse_pubmed_records ::
  "(string \<Rightarrow> element option) \<Rightarrow> (string list \<Rightarrow> string list) \<Rightarrow> string \<Rightarrow> pubmed_record list" where
  "parse_pubmed_records fromstring list_of_set xml_data =
     parse_records_with fromstring
       (\<lambda>article. Inr (Some (parse_single_article list_of_set article))) xml_data"





text \<open>The list \<open>author_affiliations\<close> that the inner loop of \<open>author_step\<close> builds for one
  author: the loop run on its own.\<close>

definition author_affiliations :: "element \<Rightarrow> string list" where
  "author_affiliations author =
     fst (fold affiliation_step (et_findall author [Descendant ''AffiliationInfo'']) ([], []))"


section \<open>Lemmas\<close>


lemma lower_char_space: "is_space c \<Longrightarrow> lower_char c = c"
  by (auto simp: is_space_def lower_char_def is_upper_def less_eq_char_def)

lemma lower_blank: "list_all is_space s \<Longrightarrow> lower s = s"
  by (induction s) (simp_all add: lower_def lower_char_space)

lemma strip_empty_iff: "strip s = [] \<longleftrightarrow> list_all is_space s"
proof
  assume "strip s = []"
  then have all: "\<forall>x\<in>set (dropWhile is_space s). is_space x"
    by (simp add: strip_def)
  have "dropWhile is_space s = []"
  proof (rule ccontr)
    assume ne: "dropWhile is_space s \<noteq> []"
    then have "\<not> is_space (hd (dropWhile is_space s))" by (rule hd_dropWhile)
    moreover from ne have "hd (dropWhile is_space s) \<in> set (dropWhile is_space s)" by simp
    ultimately show False using all by blast
  qed
  then show "list_all is_space s" by (simp add: list_all_iff)
next
  assume "list_all is_space s"
  then show "strip s = []"
    unfolding strip_def by (auto dest: set_dropWhileD simp: list_all_iff)
qed

lemma any_in_blank:
  assumes "list_all is_space s" and "\<forall>k\<in>set ks. \<exists>c\<in>set k. \<not> is_space c"
  shows "\<not> any_in ks s"
proof
  assume "any_in ks s"
  then obtain k where k: "k \<in> set ks" "sublist k s"
    by (auto simp: any_in_def list_ex_iff)
  from assms(2) k(1) obtain c where c: "c \<in> set k" "\<not> is_space c" by blast
  from k(2) have "set k \<subseteq> set s" by (rule set_mono_sublist)
  with c assms(1) show False by (auto simp: list_all_iff)
qed

lemma pharma_keywords_not_blank: "\<forall>k\<in>set PHARMA_BIOTECH_KEYWORDS. \<exists>c\<in>set k. \<not> is_space c"
  by (simp add: PHARMA_BIOTECH_KEYWORDS_def is_space_def less_eq_char_def)

lemma first_some_map: "first_some (map f xs) = Some y \<Longrightarrow> \<exists>x\<in>set xs. f x = Some y"
proof (induction xs)
  case Nil then show ?case by simp
next
  case (Cons x xs)
  then show ?case by (cases "f x") auto
qed

lemma word_match_prefix:
  "rx_match [Bnd, Alt ws, Bnd] seen rest \<noteq> None \<Longrightarrow> \<exists>w\<in>set ws. prefix w rest"
  by (auto dest!: first_some_map split: if_splits)

lemma word_search_sublist:
  "rx_search_from [Bnd, Alt ws, Bnd] seen rest \<Longrightarrow> \<exists>w\<in>set ws. sublist w rest"
proof (induction rest arbitrary: seen)
  case Nil
  then have "rx_match [Bnd, Alt ws, Bnd] seen [] \<noteq> None" by simp
  from word_match_prefix[OF this] show ?case by auto
next
  case (Cons c cs)
  show ?case
  proof (cases "rx_match [Bnd, Alt ws, Bnd] seen (c # cs) \<noteq> None")
    case True
    from word_match_prefix[OF this] show ?thesis by auto
  next
    case False
    with Cons.prems have "rx_search_from [Bnd, Alt ws, Bnd] (c # seen) cs" by simp
    from Cons.IH[OF this] show ?thesis by (auto simp: sublist_Cons_right)
  qed
qed

lemma corporate_pattern_blank:
  assumes "list_all is_space s"
  shows "\<not> has_corporate_pattern s"
proof
  assume "has_corporate_pattern s"
  then obtain p where p: "p \<in> set corporate_patterns" "rx_search_from p [] s"
    by (auto simp: has_corporate_pattern_def list_ex_iff re_search_def)
  then obtain ws where ws: "p = [Bnd, Alt ws, Bnd]" "\<forall>k\<in>set ws. \<exists>c\<in>set k. \<not> is_space c"
    by (auto simp: corporate_patterns_def is_space_def less_eq_char_def)
  from word_search_sublist p(2) ws(1) obtain w where w: "w \<in> set ws" "sublist w s" by blast
  from ws(2) w(1) obtain c where c: "c \<in> set w" "\<not> is_space c" by blast
  from w(2) have "set w \<subseteq> set s" by (rule set_mono_sublist)
  with c assms show False by (auto simp: list_all_iff)
qed
























lemma fold_article_step:
  "fold (article_step extract) articles results =
     results @ concat (map (\<lambda>a. case extract a of Inr (Some r) \<Rightarrow> [r] | _ \<Rightarrow> []) articles)"
  by (induction articles arbitrary: results)
     (simp_all add: article_step_def split: sum.splits option.splits)

lemma parse_records_with_ok:
  "strip xml_data \<noteq> [] \<Longrightarrow> fromstring xml_data = Some root \<Longrightarrow>
   parse_records_with fromstring extract xml_data =
     concat (map (\<lambda>a. case extract a of Inr (Some r) \<Rightarrow> [r] | _ \<Rightarrow> [])
               (et_findall root [Descendant ''PubmedArticle'']))"
  by (simp add: parse_records_with_def fold_article_step)


lemma extract_emails_nothing: "extract_emails None = []" "extract_emails (Some []) = []"
  by (simp_all add: extract_emails_def)

lemma affiliation_step_eq:
  "affiliation_step i (affs, es) =
     (affs @ (case extract_text i [Child ''Affiliation''] of
                None \<Rightarrow> [] | Some t \<Rightarrow> (if t \<noteq> [] then [t] else [])),
      es @ extract_emails (extract_text i [Child ''Affiliation'']))"
  by (simp add: affiliation_step_def extract_emails_nothing split: option.splits)

lemma fold_affiliation_step:
  "fold affiliation_step infos (affs, es) =
     (affs @ concat (map (\<lambda>i. case extract_text i [Child ''Affiliation''] of
                None \<Rightarrow> [] | Some t \<Rightarrow> (if t \<noteq> [] then [t] else [])) infos),
      es @ concat (map (\<lambda>i. extract_emails (extract_text i [Child ''Affiliation''])) infos))"
proof (induction infos arbitrary: affs es)
  case Nil
  show ?case by simp
next
  case (Cons i infos)
  show ?case by (simp only: fold_simps affiliation_step_eq Cons.IH) simp
qed

lemma author_affiliations_eq:
  "author_affiliations a =
     concat (map (\<lambda>i. case extract_text i [Child ''Affiliation''] of
                None \<Rightarrow> [] | Some t \<Rightarrow> (if t \<noteq> [] then [t] else []))
              (et_findall a [Descendant ''AffiliationInfo'']))"
  by (simp add: author_affiliations_def fold_affiliation_step)

lemma author_step_eq:
  "author_step a st =
     (if list_ex is_non_academic_affiliation (author_affiliations a) \<and> full_name_of a \<noteq> []
      then st\<lparr>non_academic_authors := unique_step (full_name_of a) (non_academic_authors st),
              company_affiliations := fold company_step (author_affiliations a) (company_affiliations st),
              emails := emails st @ concat (map (\<lambda>i. extract_emails (extract_text i [Child ''Affiliation'']))
                                      (et_findall a [Descendant ''AffiliationInfo'']))\<rparr>
      else st\<lparr>emails := emails st @ concat (map (\<lambda>i. extract_emails (extract_text i [Child ''Affiliation'']))
                                      (et_findall a [Descendant ''AffiliationInfo'']))\<rparr>)"
  by (simp add: author_step_def fold_affiliation_step author_affiliations_eq unique_step_def Let_def)

lemma set_unique_step: "set (unique_step x u) = insert x (set u)"
  by (auto simp: unique_step_def)

lemma distinct_unique_step: "distinct u \<Longrightarrow> distinct (unique_step x u)"
  by (simp add: unique_step_def)

lemma set_fold_company_step:
  "set (fold company_step affs ca) = set ca \<union> {x \<in> set affs. is_non_academic_affiliation x}"
  by (induction affs arbitrary: ca) (auto simp: company_step_def)

lemma distinct_fold_company_step: "distinct ca \<Longrightarrow> distinct (fold company_step affs ca)"
  by (induction affs arbitrary: ca) (auto simp: company_step_def)

lemma names_fold_author_step:
  "set (non_academic_authors (fold author_step as st)) =
     set (non_academic_authors st) \<union>
     {full_name_of a | a. a \<in> set as \<and> full_name_of a \<noteq> [] \<and>
        (\<exists>aff\<in>set (author_affiliations a). is_non_academic_affiliation aff)}"
proof (induction as arbitrary: st)
  case Nil
  show ?case by simp
next
  case (Cons a as)
  have "set (non_academic_authors (author_step a st)) =
          set (non_academic_authors st) \<union>
          (if full_name_of a \<noteq> [] \<and> (\<exists>aff\<in>set (author_affiliations a). is_non_academic_affiliation aff)
           then {full_name_of a} else {})"
    by (simp add: author_step_eq set_unique_step list_ex_iff)
  then show ?case
    by (simp only: fold_simps Cons.IH) (auto split: if_splits)
qed

lemma distinct_names_fold_author_step:
  "distinct (non_academic_authors st) \<Longrightarrow> distinct (non_academic_authors (fold author_step as st))"
proof (induction as arbitrary: st)
  case Nil
  then show ?case by simp
next
  case (Cons a as)
  from Cons.prems have "distinct (non_academic_authors (author_step a st))"
    by (simp add: author_step_eq distinct_unique_step)
  from Cons.IH[OF this] show ?case by simp
qed

lemma companies_fold_author_step:
  "set (company_affiliations (fold author_step as st)) =
     set (company_affiliations st) \<union>
     {aff. \<exists>a\<in>set as. full_name_of a \<noteq> [] \<and> aff \<in> set (author_affiliations a) \<and>
             is_non_academic_affiliation aff}"
proof (induction as arbitrary: st)
  case Nil
  show ?case by simp
next
  case (Cons a as)
  have "set (company_affiliations (author_step a st)) =
          set (company_affiliations st) \<union>
          {aff. full_name_of a \<noteq> [] \<and> aff \<in> set (author_affiliations a) \<and>
                is_non_academic_affiliation aff}"
    by (auto simp: author_step_eq set_fold_company_step list_ex_iff)
  then show ?case
    by (simp only: fold_simps Cons.IH) auto
qed

lemma distinct_companies_fold_author_step:
  "distinct (company_affiliations st) \<Longrightarrow> distinct (company_affiliations (fold author_step as st))"
proof (induction as arbitrary: st)
  case Nil
  then show ?case by simp
next
  case (Cons a as)
  from Cons.prems have "distinct (company_affiliations (author_step a st))"
    by (simp add: author_step_eq distinct_fold_company_step)
  from Cons.IH[OF this] show ?case by simp
qed

lemma emails_fold_author_step:
  "emails (fold author_step as st) =
     emails st @ concat (map (\<lambda>a. concat (map (\<lambda>i. extract_emails (extract_text i [Child ''Affiliation'']))
                                      (et_findall a [Descendant ''AffiliationInfo'']))) as)"
proof (induction as arbitrary: st)
  case Nil
  show ?case by simp
next
  case (Cons a as)
  have "emails (author_step a st) =
          emails st @ concat (map (\<lambda>i. extract_emails (extract_text i [Child ''Affiliation'']))
                                      (et_findall a [Descendant ''AffiliationInfo'']))"
    by (simp add: author_step_eq)
  then show ?case by (simp only: fold_simps Cons.IH) simp
qed

lemma et_findall_two_steps:
  "et_findall e [Descendant s, Descendant t] =
     concat (map (\<lambda>a. et_findall a [Descendant t]) (et_findall e [Descendant s]))"
  by (simp add: et_findall_def)

lemma concat_map_nested:
  "concat (map (\<lambda>a. concat (map f (g a))) xs) = concat (map f (concat (map g xs)))"
  by (induction xs) simp_all

lemma emails_process_authors:
  "emails (process_authors article) =
     concat (map (\<lambda>i. extract_emails (extract_text i [Child ''Affiliation'']))
               (et_findall article [Descendant ''Author'', Descendant ''AffiliationInfo'']))"
  by (simp add: process_authors_def emails_fold_author_step et_findall_two_steps
      concat_map_nested)

lemma emails_step_eq: "emails_step e es = es @ extract_emails (etext e)"
  by (simp add: emails_step_def extract_emails_nothing split: option.splits)

lemma extract_emails_from_elements_eq:
  "extract_emails_from_elements article p =
     concat (map (\<lambda>e. extract_emails (etext e)) (et_findall article p))"
proof -
  have "fold emails_step xs acc = acc @ concat (map (\<lambda>e. extract_emails (etext e)) xs)"
    for xs acc
    by (induction xs arbitrary: acc) (simp_all add: emails_step_eq)
  then show ?thesis by (simp add: extract_emails_from_elements_def)
qed

section \<open>The affiliation classifier\<close>

text \<open>
  C1. The claim: when the lower-cased affiliation contains an academic keyword and a
  pharma/corporate keyword, the classifier answers true exactly when a corporate-suffix
  token stands in it as a word of its own. The code tests the suffix tokens with the
  substring test instead: \<open>Massachusetts Institute of Technology\<close> contains the academic
  keyword \<open>institute\<close> and, inside \<open>massachusetts\<close>, the letters \<open>sa\<close>; no suffix token
  stands there as a word, and the classifier answers true.
\<close>

theorem classify_mixed_substring_slip:
  "has_academic_keywords (lower ''Massachusetts Institute of Technology'') \<and>
   has_pharma_keywords (lower ''Massachusetts Institute of Technology'') \<and>
   \<not> re_search [Bnd, Alt corporate_indicators, Bnd]
         (lower ''Massachusetts Institute of Technology'') \<and>
   is_non_academic_affiliation ''Massachusetts Institute of Technology''"
  by code_simp

text \<open>
  C4. When the lower-cased affiliation contains no academic keyword, the classifier
  answers true exactly when it contains a pharma/corporate keyword as a substring or one
  of the four word-boundary patterns matches; in particular it answers true whenever a
  corporate-suffix token (as a substring or as a word of its own) or a pharma keyword
  is present.
\<close>

theorem classify_without_academic_term:
  assumes "\<not> has_academic_keywords (lower a)"
  shows "is_non_academic_affiliation a
           = (has_pharma_keywords (lower a) \<or> has_corporate_pattern (lower a)) \<and>
         (has_corporate (lower a) \<or> has_pharma_keywords (lower a)
            \<or> re_search [Bnd, Alt corporate_indicators, Bnd] (lower a)
            \<longrightarrow> is_non_academic_affiliation a)"
proof -
  have eq: "is_non_academic_affiliation a
           = (has_pharma_keywords (lower a) \<or> has_corporate_pattern (lower a))"
  proof (cases "list_all is_space a")
    case True
    then have "lower a = a" by (rule lower_blank)
    moreover from True have "\<not> any_in PHARMA_BIOTECH_KEYWORDS a"
      using pharma_keywords_not_blank by (rule any_in_blank)
    moreover from True have "\<not> has_corporate_pattern a" by (rule corporate_pattern_blank)
    ultimately show ?thesis using True
      by (simp add: is_non_academic_affiliation_def strip_empty_iff has_pharma_keywords_def)
  next
    case False
    then have "a \<noteq> []" by auto
    with False assms show ?thesis
      by (simp add: is_non_academic_affiliation_def strip_empty_iff Let_def)
  qed
  have sub: "has_corporate (lower a) \<longrightarrow> has_pharma_keywords (lower a)"
    by (auto simp: has_corporate_def has_pharma_keywords_def any_in_def list_ex_iff
        corporate_indicators_def PHARMA_BIOTECH_KEYWORDS_def)
  have word: "re_search [Bnd, Alt corporate_indicators, Bnd] (lower a)
                \<longrightarrow> has_pharma_keywords (lower a)"
  proof
    assume "re_search [Bnd, Alt corporate_indicators, Bnd] (lower a)"
    then have "rx_search_from [Bnd, Alt corporate_indicators, Bnd] [] (lower a)"
      by (simp only: re_search_def)
    from word_search_sublist[OF this]
    obtain w where "w \<in> set corporate_indicators" "sublist w (lower a)" by blast
    then have "has_corporate (lower a)" by (auto simp: has_corporate_def any_in_def list_ex_iff)
    with sub show "has_pharma_keywords (lower a)" by blast
  qed
  from eq sub word show ?thesis by blast
qed

theorem classify_without_academic_term_witness:
  "\<not> has_academic_keywords (lower ''Novartis AG'') \<and>
   has_corporate_pattern (lower ''Novartis AG'') \<and>
   is_non_academic_affiliation ''Novartis AG'' \<and>
   \<not> has_academic_keywords (lower ''Some random text'') \<and>
   \<not> is_non_academic_affiliation ''Some random text''"
proof -
  have h1: "\<not> has_academic_keywords (lower ''Novartis AG'')" by code_simp
  have p1: "has_corporate_pattern (lower ''Novartis AG'')" by code_simp
  have h2: "\<not> has_academic_keywords (lower ''Some random text'')" by code_simp
  have p2: "\<not> has_pharma_keywords (lower ''Some random text'')" by code_simp
  have q2: "\<not> has_corporate_pattern (lower ''Some random text'')" by code_simp
  from classify_without_academic_term[OF h1] classify_without_academic_term[OF h2]
    h1 p1 h2 p2 q2
  show ?thesis by blast
qed

text \<open>
  C5. The classifier answers false on the empty string and on a string of white space
  only, and on every affiliation whose lower-cased text contains an academic keyword
  but no pharma/corporate keyword.
\<close>

theorem classify_false_cases:
  "(list_all is_space a \<longrightarrow> \<not> is_non_academic_affiliation a) \<and>
   (has_academic_keywords (lower a) \<and> \<not> has_pharma_keywords (lower a)
      \<longrightarrow> \<not> is_non_academic_affiliation a)"
  by (simp add: is_non_academic_affiliation_def strip_empty_iff)

theorem classify_false_cases_witness:
  "list_all is_space [] \<and> \<not> is_non_academic_affiliation [] \<and>
   list_all is_space ''   '' \<and> \<not> is_non_academic_affiliation ''   '' \<and>
   has_academic_keywords (lower ''Cold Spring Harbor Laboratory'') \<and>
   \<not> has_pharma_keywords (lower ''Cold Spring Harbor Laboratory'') \<and>
   \<not> is_non_academic_affiliation ''Cold Spring Harbor Laboratory''"
proof -
  have b1: "list_all is_space []" by simp
  have b2: "list_all is_space ''   ''" by code_simp
  have a3: "has_academic_keywords (lower ''Cold Spring Harbor Laboratory'')" by code_simp
  have p3: "\<not> has_pharma_keywords (lower ''Cold Spring Harbor Laboratory'')" by code_simp
  from classify_false_cases [of "[]"] classify_false_cases [of "''   ''"]
    classify_false_cases [of "''Cold Spring Harbor Laboratory''"] b1 b2 a3 p3
  show ?thesis by blast
qed

section \<open>The publication date\<close>



section \<open>The e-mail extractor\<close>



section \<open>The document parser\<close>



text \<open>
  C9. When the document is not blank and \<open>fromstring\<close> accepts it, the parser returns one
  record for each article node (each \<open>PubmedArticle\<close> element below the root), in document
  order, whatever the node contains: an article node without children gives the record
  whose six fields are empty.
\<close>

theorem record_for_every_article:
  "(\<not> list_all is_space xml_data \<and> fromstring xml_data = Some root \<longrightarrow>
      parse_pubmed_records fromstring list_of_set xml_data =
        map (parse_single_article list_of_set) (et_findall root [Descendant ''PubmedArticle''])) \<and>
   (lists_the_set list_of_set \<longrightarrow>
      parse_single_article list_of_set (Element ''PubmedArticle'' None []) =
        \<lparr>PubmedID = [], Title = [], Publication_Date = [], Non_academic_Authors = [],
         Company_Affiliations = [], Corresponding_Author_Email = []\<rparr>)"
proof -
  have a: "\<not> list_all is_space xml_data \<and> fromstring xml_data = Some root \<longrightarrow>
      parse_pubmed_records fromstring list_of_set xml_data =
        map (parse_single_article list_of_set) (et_findall root [Descendant ''PubmedArticle''])"
    by (simp add: parse_pubmed_records_def parse_records_with_ok strip_empty_iff)
  have b: "lists_the_set list_of_set \<longrightarrow>
      parse_single_article list_of_set (Element ''PubmedArticle'' None []) =
        \<lparr>PubmedID = [], Title = [], Publication_Date = [], Non_academic_Authors = [],
         Company_Affiliations = [], Corresponding_Author_Email = []\<rparr>"
  proof
    assume "lists_the_set list_of_set"
    then have "set (list_of_set []) = set []" unfolding lists_the_set_def by blast
    then have e: "list_of_set [] = []" by simp
    show "parse_single_article list_of_set (Element ''PubmedArticle'' None []) =
        \<lparr>PubmedID = [], Title = [], Publication_Date = [], Non_academic_Authors = [],
         Company_Affiliations = [], Corresponding_Author_Email = []\<rparr>"
      by (simp add: parse_single_article_def extract_text_def et_find_def et_findall_def
          descendants_def or_empty_def extract_publication_date_def
          extract_emails_from_elements_def process_authors_def e)
  qed
  from a b show ?thesis by blast
qed

theorem record_for_every_article_witness:
  "\<not> list_all is_space ''<s/>'' \<and> lists_the_set remdups \<and>
   parse_pubmed_records
     (\<lambda>s. Some (Element ''PubmedArticleSet'' None [Element ''PubmedArticle'' None []]))
     remdups ''<s/>''
   = [\<lparr>PubmedID = [], Title = [], Publication_Date = [], Non_academic_Authors = [],
         Company_Affiliations = [], Corresponding_Author_Email = []\<rparr>]"
proof -
  have nb: "\<not> list_all is_space ''<s/>''" by code_simp
  have l: "lists_the_set remdups" by (simp add: lists_the_set_def)
  have r: "(\<lambda>s::string. Some (Element ''PubmedArticleSet'' None [Element ''PubmedArticle'' None []]))
             ''<s/>'' = Some (Element ''PubmedArticleSet'' None [Element ''PubmedArticle'' None []])"
    by simp
  have f: "et_findall (Element ''PubmedArticleSet'' None [Element ''PubmedArticle'' None []])
        [Descendant ''PubmedArticle''] = [Element ''PubmedArticle'' None []]"
    by (simp add: et_findall_def descendants_def)
  from record_for_every_article
    [of "''<s/>''" "\<lambda>s. Some (Element ''PubmedArticleSet'' None [Element ''PubmedArticle'' None []])"
        "Element ''PubmedArticleSet'' None [Element ''PubmedArticle'' None []]" remdups]
    nb r l f
  show ?thesis by simp
qed



section \<open>Authors, companies and e-mails of one article\<close>

text \<open>
  C2, as stated: the list of non-academic authors holds exactly the full names of the
  authors with an affiliation classified non-academic. The code adds a name only when it
  is not empty: below, the first author has the affiliation \<open>Pfizer Inc.\<close> and no name
  elements, so its full name is the empty string, and the list holds the second author
  alone.
\<close>

theorem nameless_author_counterexample:
  "et_findall
     (Element ''PubmedArticle'' None
        [Element ''AuthorList'' None
           [Element ''Author'' None
              [Element ''AffiliationInfo'' None [Element ''Affiliation'' (Some ''Pfizer Inc.'') []]],
            Element ''Author'' None
              [Element ''LastName'' (Some ''Roe'') [], Element ''ForeName'' (Some ''Jane'') [],
               Element ''AffiliationInfo'' None [Element ''Affiliation'' (Some ''Moderna Inc.'') []]]]])
     [Descendant ''Author'']
   = [Element ''Author'' None
        [Element ''AffiliationInfo'' None [Element ''Affiliation'' (Some ''Pfizer Inc.'') []]],
      Element ''Author'' None
        [Element ''LastName'' (Some ''Roe'') [], Element ''ForeName'' (Some ''Jane'') [],
         Element ''AffiliationInfo'' None [Element ''Affiliation'' (Some ''Moderna Inc.'') []]]] \<and>
   author_affiliations
     (Element ''Author'' None
        [Element ''AffiliationInfo'' None [Element ''Affiliation'' (Some ''Pfizer Inc.'') []]])
   = [''Pfizer Inc.''] \<and>
   is_non_academic_affiliation ''Pfizer Inc.'' \<and>
   full_name_of
     (Element ''Author'' None
        [Element ''AffiliationInfo'' None [Element ''Affiliation'' (Some ''Pfizer Inc.'') []]])
   = [] \<and>
   non_academic_authors (process_authors
     (Element ''PubmedArticle'' None
        [Element ''AuthorList'' None
           [Element ''Author'' None
              [Element ''AffiliationInfo'' None [Element ''Affiliation'' (Some ''Pfizer Inc.'') []]],
            Element ''Author'' None
              [Element ''LastName'' (Some ''Roe'') [], Element ''ForeName'' (Some ''Jane'') [],
               Element ''AffiliationInfo'' None [Element ''Affiliation'' (Some ''Moderna Inc.'') []]]]]))
   = [''Jane Roe''] \<and>
   [] \<notin> set (non_academic_authors (process_authors
     (Element ''PubmedArticle'' None
        [Element ''AuthorList'' None
           [Element ''Author'' None
              [Element ''AffiliationInfo'' None [Element ''Affiliation'' (Some ''Pfizer Inc.'') []]],
            Element ''Author'' None
              [Element ''LastName'' (Some ''Roe'') [], Element ''ForeName'' (Some ''Jane'') [],
               Element ''AffiliationInfo'' None [Element ''Affiliation'' (Some ''Moderna Inc.'') []]]]])))"
  by code_simp

text \<open>
  C2, amended. For every article, with the authors being the \<open>Author\<close> elements below it:
  the field of non-academic authors is the list, joined with \<open>; \<close>, of exactly the
  non-empty full names of the authors that have at least one affiliation classified
  non-academic (so an author with an academic and a corporate affiliation is in it), no
  name twice; the field of company affiliations is the joined list of affiliations each
  of which is classified non-academic.
\<close>

theorem non_academic_authors_named:
  "Non_academic_Authors (parse_single_article list_of_set article)
     = join ''; '' (non_academic_authors (process_authors article)) \<and>
   distinct (non_academic_authors (process_authors article)) \<and>
   set (non_academic_authors (process_authors article)) =
     {full_name_of a | a. a \<in> set (et_findall article [Descendant ''Author'']) \<and>
        full_name_of a \<noteq> [] \<and>
        (\<exists>aff\<in>set (author_affiliations a). is_non_academic_affiliation aff)} \<and>
   Company_Affiliations (parse_single_article list_of_set article)
     = join ''; '' (company_affiliations (process_authors article)) \<and>
   (\<forall>aff\<in>set (company_affiliations (process_authors article)).
      is_non_academic_affiliation aff)"
proof -
  have f: "Non_academic_Authors (parse_single_article list_of_set article)
     = join ''; '' (non_academic_authors (process_authors article))"
    and g: "Company_Affiliations (parse_single_article list_of_set article)
     = join ''; '' (company_affiliations (process_authors article))"
    by (simp_all add: parse_single_article_def Let_def)
  have d: "distinct (non_academic_authors (process_authors article))"
    unfolding process_authors_def by (rule distinct_names_fold_author_step) simp
  have s: "set (non_academic_authors (process_authors article)) =
     {full_name_of a | a. a \<in> set (et_findall article [Descendant ''Author'']) \<and>
        full_name_of a \<noteq> [] \<and>
        (\<exists>aff\<in>set (author_affiliations a). is_non_academic_affiliation aff)}"
    by (simp add: process_authors_def names_fold_author_step)
  have c: "\<forall>aff\<in>set (company_affiliations (process_authors article)).
      is_non_academic_affiliation aff"
    by (auto simp: process_authors_def companies_fold_author_step)
  from f d s g c show ?thesis by blast
qed

theorem non_academic_authors_named_witness:
  "''Pfizer Inc.'' \<in> set (company_affiliations (process_authors
     (Element ''PubmedArticle'' None
        [Element ''Author'' None
           [Element ''LastName'' (Some ''Doe'') [], Element ''ForeName'' (Some ''John'') [],
            Element ''AffiliationInfo'' None [Element ''Affiliation'' (Some ''Harvard University'') []],
            Element ''AffiliationInfo'' None [Element ''Affiliation'' (Some ''Pfizer Inc.'') []]]]))) \<and>
   is_non_academic_affiliation ''Pfizer Inc.'' \<and>
   Non_academic_Authors (parse_single_article remdups
     (Element ''PubmedArticle'' None
        [Element ''Author'' None
           [Element ''LastName'' (Some ''Doe'') [], Element ''ForeName'' (Some ''John'') [],
            Element ''AffiliationInfo'' None [Element ''Affiliation'' (Some ''Harvard University'') []],
            Element ''AffiliationInfo'' None [Element ''Affiliation'' (Some ''Pfizer Inc.'') []]]]))
   = ''John Doe'' \<and>
   Company_Affiliations (parse_single_article remdups
     (Element ''PubmedArticle'' None
        [Element ''Author'' None
           [Element ''LastName'' (Some ''Doe'') [], Element ''ForeName'' (Some ''John'') [],
            Element ''AffiliationInfo'' None [Element ''Affiliation'' (Some ''Harvard University'') []],
            Element ''AffiliationInfo'' None [Element ''Affiliation'' (Some ''Pfizer Inc.'') []]]]))
   = ''Pfizer Inc.''"
proof -
  have m: "''Pfizer Inc.'' \<in> set (company_affiliations (process_authors
     (Element ''PubmedArticle'' None
        [Element ''Author'' None
           [Element ''LastName'' (Some ''Doe'') [], Element ''ForeName'' (Some ''John'') [],
            Element ''AffiliationInfo'' None [Element ''Affiliation'' (Some ''Harvard University'') []],
            Element ''AffiliationInfo'' None [Element ''Affiliation'' (Some ''Pfizer Inc.'') []]]])))"
    by code_simp
  have n: "join ''; '' (non_academic_authors (process_authors
     (Element ''PubmedArticle'' None
        [Element ''Author'' None
           [Element ''LastName'' (Some ''Doe'') [], Element ''ForeName'' (Some ''John'') [],
            Element ''AffiliationInfo'' None [Element ''Affiliation'' (Some ''Harvard University'') []],
            Element ''AffiliationInfo'' None [Element ''Affiliation'' (Some ''Pfizer Inc.'') []]]])))
     = ''John Doe''"
    by code_simp
  have c: "join ''; '' (company_affiliations (process_authors
     (Element ''PubmedArticle'' None
        [Element ''Author'' None
           [Element ''LastName'' (Some ''Doe'') [], Element ''ForeName'' (Some ''John'') [],
            Element ''AffiliationInfo'' None [Element ''Affiliation'' (Some ''Harvard University'') []],
            Element ''AffiliationInfo'' None [Element ''Affiliation'' (Some ''Pfizer Inc.'') []]]])))
     = ''Pfizer Inc.''"
    by code_simp
  from non_academic_authors_named [of remdups
     "Element ''PubmedArticle'' None
        [Element ''Author'' None
           [Element ''LastName'' (Some ''Doe'') [], Element ''ForeName'' (Some ''John'') [],
            Element ''AffiliationInfo'' None [Element ''Affiliation'' (Some ''Harvard University'') []],
            Element ''AffiliationInfo'' None [Element ''Affiliation'' (Some ''Pfizer Inc.'') []]]]"]
    m n c
  show ?thesis by (simp only:)
qed

text \<open>
  C8. The e-mail field of a record is a list joined with \<open>; \<close> that holds, each once and
  in the order of \<open>list_of_set\<close>, exactly the e-mails extracted from the text of every
  \<open>Email\<close> element below an \<open>Author\<close> below an \<open>AuthorList\<close> of the article, of every
  \<open>Name\<close> element below a \<open>DataBank\<close> below a \<open>DataBankList\<close>, and of the affiliation
  text (the stripped text of the first \<open>Affiliation\<close> child) of every \<open>AffiliationInfo\<close>
  element below an \<open>Author\<close> element of the article.
\<close>

theorem corresponding_emails_union:
  assumes "lists_the_set list_of_set"
  shows "\<exists>ys. Corresponding_Author_Email (parse_single_article list_of_set article)
                 = join ''; '' ys \<and>
           distinct ys \<and>
           set ys =
             (\<Union>e\<in>set (et_findall article
                  [Descendant ''AuthorList'', Descendant ''Author'', Descendant ''Email'']).
                set (extract_emails (etext e)))
             \<union> (\<Union>e\<in>set (et_findall article
                  [Descendant ''DataBankList'', Descendant ''DataBank'', Descendant ''Name'']).
                set (extract_emails (etext e)))
             \<union> (\<Union>i\<in>set (et_findall article
                  [Descendant ''Author'', Descendant ''AffiliationInfo'']).
                set (extract_emails (extract_text i [Child ''Affiliation''])))"
proof -
  define xs where "xs = emails (process_authors article)
      @ (extract_emails_from_elements article
           [Descendant ''AuthorList'', Descendant ''Author'', Descendant ''Email'']
         @ extract_emails_from_elements article
             [Descendant ''DataBankList'', Descendant ''DataBank'', Descendant ''Name''])"
  have f: "Corresponding_Author_Email (parse_single_article list_of_set article)
             = join ''; '' (list_of_set xs)"
    by (simp add: parse_single_article_def Let_def xs_def)
  from assms have d: "distinct (list_of_set xs)" and s: "set (list_of_set xs) = set xs"
    unfolding lists_the_set_def by blast+
  have "set xs =
             (\<Union>e\<in>set (et_findall article
                  [Descendant ''AuthorList'', Descendant ''Author'', Descendant ''Email'']).
                set (extract_emails (etext e)))
             \<union> (\<Union>e\<in>set (et_findall article
                  [Descendant ''DataBankList'', Descendant ''DataBank'', Descendant ''Name'']).
                set (extract_emails (etext e)))
             \<union> (\<Union>i\<in>set (et_findall article
                  [Descendant ''Author'', Descendant ''AffiliationInfo'']).
                set (extract_emails (extract_text i [Child ''Affiliation''])))"
    unfolding xs_def emails_process_authors extract_emails_from_elements_eq
    by (simp only: set_append set_concat set_map) blast
  with f d s show ?thesis by metis
qed

theorem corresponding_emails_union_witness:
  "lists_the_set remdups \<and>
   Corresponding_Author_Email (parse_single_article remdups
     (Element ''PubmedArticle'' None
        [Element ''AuthorList'' None
           [Element ''Author'' None
              [Element ''Email'' (Some ''a@x.org'') [],
               Element ''AffiliationInfo'' None
                 [Element ''Affiliation'' (Some ''Pfizer Inc. a@x.org, b@y.com'') []]]],
         Element ''DataBankList'' None
           [Element ''DataBank'' None [Element ''Name'' (Some ''c@z.net'') []]]]))
   = ''b@y.com; a@x.org; c@z.net'' \<and>
   (\<exists>ys. ''b@y.com; a@x.org; c@z.net'' = join ''; '' ys \<and> distinct ys)"
proof -
  have l: "lists_the_set remdups" by (simp add: lists_the_set_def)
  have v: "Corresponding_Author_Email (parse_single_article remdups
     (Element ''PubmedArticle'' None
        [Element ''AuthorList'' None
           [Element ''Author'' None
              [Element ''Email'' (Some ''a@x.org'') [],
               Element ''AffiliationInfo'' None
                 [Element ''Affiliation'' (Some ''Pfizer Inc. a@x.org, b@y.com'') []]]],
         Element ''DataBankList'' None
           [Element ''DataBank'' None [Element ''Name'' (Some ''c@z.net'') []]]]))
   = ''b@y.com; a@x.org; c@z.net''" by code_simp
  from corresponding_emails_union [OF l, of
     "Element ''PubmedArticle'' None
        [Element ''AuthorList'' None
           [Element ''Author'' None
              [Element ''Email'' (Some ''a@x.org'') [],
               Element ''AffiliationInfo'' None
                 [Element ''Affiliation'' (Some ''Pfizer Inc. a@x.org, b@y.com'') []]]],
         Element ''DataBankList'' None
           [Element ''DataBank'' None [Element ''Name'' (Some ''c@z.net'') []]]]"]
  have "\<exists>ys. ''b@y.com; a@x.org; c@z.net'' = join ''; '' ys \<and> distinct ys"
    unfolding v by blast
  with l v show ?thesis by blast
qed

end
